theory Spec2Isabelle
  imports Main
begin

section \<open>Exceptions and methods that mutate their receiver\<close>

text \<open>
  The source is JavaScript. A thrown exception is a value of type \<open>error\<close>;
  \<open>Error msg\<close> is \<^verbatim>\<open>new Error(msg)\<close>. A method of a class is a function from the
  receiver's fields before the call to an outcome (\<open>Inl\<close> the exception, \<open>Inr\<close> the
  returned value) paired with the receiver's fields after the call, so that what an
  aborted call leaves behind in the object is part of the model.
\<close>

datatype error = Error string | SyntaxError | TypeError

type_synonym ('s, 'a) effect = "'s \<Rightarrow> (error + 'a) \<times> 's"

definition throw :: "error \<Rightarrow> ('s, 'a) effect" where
  "throw e s = (Inl e, s)"

definition done_m :: "('s, unit) effect" where
  "done_m s = (Inr (), s)"

definition assign :: "('s \<Rightarrow> 's) \<Rightarrow> ('s, unit) effect" where
  "assign upd s = (Inr (), upd s)"

text \<open>Statement sequencing: a throw in the first statement skips the second.\<close>

definition next_m :: "('s, unit) effect \<Rightarrow> ('s, 'a) effect \<Rightarrow> ('s, 'a) effect" where
  "next_m m k s = (case m s of (Inl e, s') \<Rightarrow> (Inl e, s') | (Inr u, s') \<Rightarrow> k s')"


section \<open>The selector builder\<close>

text \<open>
  \<^verbatim>\<open>class Selector\<close>: the four fields its constructor sets. The rank
  \<open>currentSelectorInQueue\<close> only ever holds one of the literals 0 to 6.
\<close>

record Selector =
  resultSelector :: string
  currentSelectorInQueue :: nat
  errorMessageForRepeat :: string
  errorMessageForSequence :: string

definition new_Selector :: Selector where
  "new_Selector =
    \<lparr> resultSelector = '''',
      currentSelectorInQueue = 0,
      errorMessageForRepeat =
        ''Element, id and pseudo-element should not occur more then one time inside the selector'',
      errorMessageForSequence =
        ''Selector parts should be arranged in the following order: element, id, class, attribute, pseudo-class, pseudo-element'' \<rparr>"

definition checkSelectorsQueue :: "nat \<Rightarrow> (Selector, unit) effect" where
  "checkSelectorsQueue nextSelectorInQueue =
    next_m
      (\<lambda>this. if currentSelectorInQueue this > nextSelectorInQueue
               then throw (Error (errorMessageForSequence this)) this
               else done_m this)
      (\<lambda>this. if currentSelectorInQueue this = nextSelectorInQueue
                  \<and> (nextSelectorInQueue = 1
                  \<or> nextSelectorInQueue = 2
                  \<or> nextSelectorInQueue = 6)
               then throw (Error (errorMessageForRepeat this)) this
               else done_m this)"

text \<open>
  The six fragment methods. Each returns \<^verbatim>\<open>this\<close>, which is the second component
  of the result here.
\<close>

definition element :: "string \<Rightarrow> (Selector, unit) effect" where
  "element v =
    next_m (checkSelectorsQueue 1)
   (next_m (assign (\<lambda>this. this\<lparr>currentSelectorInQueue := 1\<rparr>))
           (assign (\<lambda>this. this\<lparr>resultSelector := v\<rparr>)))"

definition id_selector :: "string \<Rightarrow> (Selector, unit) effect" where
  "id_selector v =
    next_m (checkSelectorsQueue 2)
   (next_m (assign (\<lambda>this. this\<lparr>currentSelectorInQueue := 2\<rparr>))
           (assign (\<lambda>this. this\<lparr>resultSelector := resultSelector this @ ''#'' @ v\<rparr>)))"

definition class_selector :: "string \<Rightarrow> (Selector, unit) effect" where
  "class_selector v =
    next_m (checkSelectorsQueue 3)
   (next_m (assign (\<lambda>this. this\<lparr>currentSelectorInQueue := 3\<rparr>))
           (assign (\<lambda>this. this\<lparr>resultSelector := resultSelector this @ ''.'' @ v\<rparr>)))"

definition attr :: "string \<Rightarrow> (Selector, unit) effect" where
  "attr v =
    next_m (checkSelectorsQueue 4)
   (next_m (assign (\<lambda>this. this\<lparr>currentSelectorInQueue := 4\<rparr>))
           (assign (\<lambda>this. this\<lparr>resultSelector := resultSelector this @ ''['' @ v @ '']''\<rparr>)))"

definition pseudoClass :: "string \<Rightarrow> (Selector, unit) effect" where
  "pseudoClass v =
    next_m (checkSelectorsQueue 5)
   (next_m (assign (\<lambda>this. this\<lparr>currentSelectorInQueue := 5\<rparr>))
           (assign (\<lambda>this. this\<lparr>resultSelector := resultSelector this @ '':'' @ v\<rparr>)))"

definition pseudoElement :: "string \<Rightarrow> (Selector, unit) effect" where
  "pseudoElement v =
    next_m (checkSelectorsQueue 6)
   (next_m (assign (\<lambda>this. this\<lparr>currentSelectorInQueue := 6\<rparr>))
           (assign (\<lambda>this. this\<lparr>resultSelector := resultSelector this @ ''::'' @ v\<rparr>)))"

definition stringify :: "Selector \<Rightarrow> string" where
  "stringify this = resultSelector this"

definition combine :: "Selector \<Rightarrow> string \<Rightarrow> Selector \<Rightarrow> (Selector, unit) effect" where
  "combine selector1 combinator selector2 =
    assign (\<lambda>this. this\<lparr>resultSelector :=
      stringify selector1 @ '' '' @ combinator @ '' '' @ stringify selector2\<rparr>)"

text \<open>The facade \<^verbatim>\<open>cssSelectorBuilder\<close>: every entry starts from a new instance.\<close>

definition cssSelectorBuilder_checkSelectorsQueue :: "nat \<Rightarrow> (error + unit) \<times> Selector" where
  "cssSelectorBuilder_checkSelectorsQueue nextSelectorInQueue =
    checkSelectorsQueue nextSelectorInQueue new_Selector"

definition cssSelectorBuilder_element :: "string \<Rightarrow> (error + unit) \<times> Selector" where
  "cssSelectorBuilder_element v = element v new_Selector"

definition cssSelectorBuilder_id :: "string \<Rightarrow> (error + unit) \<times> Selector" where
  "cssSelectorBuilder_id v = id_selector v new_Selector"

definition cssSelectorBuilder_class :: "string \<Rightarrow> (error + unit) \<times> Selector" where
  "cssSelectorBuilder_class v = class_selector v new_Selector"

definition cssSelectorBuilder_attr :: "string \<Rightarrow> (error + unit) \<times> Selector" where
  "cssSelectorBuilder_attr v = attr v new_Selector"

definition cssSelectorBuilder_pseudoClass :: "string \<Rightarrow> (error + unit) \<times> Selector" where
  "cssSelectorBuilder_pseudoClass v = pseudoClass v new_Selector"

definition cssSelectorBuilder_pseudoElement :: "string \<Rightarrow> (error + unit) \<times> Selector" where
  "cssSelectorBuilder_pseudoElement v = pseudoElement v new_Selector"

definition cssSelectorBuilder_combine ::
    "Selector \<Rightarrow> string \<Rightarrow> Selector \<Rightarrow> (error + unit) \<times> Selector" where
  "cssSelectorBuilder_combine selector1 combinator selector2 =
    combine selector1 combinator selector2 new_Selector"

definition cssSelectorBuilder_stringify :: string where
  "cssSelectorBuilder_stringify = stringify new_Selector"


subsection \<open>Fragment calls as data\<close>

text \<open>
  A fragment-append call is one of the six methods with its argument. \<open>rank\<close> is the
  literal the method passes to \<open>checkSelectorsQueue\<close> and stores afterwards.
\<close>

datatype fragment =
    ElementF string
  | IdF string
  | ClassF string
  | AttrF string
  | PseudoClassF string
  | PseudoElementF string

fun call :: "fragment \<Rightarrow> (Selector, unit) effect" where
  "call (ElementF v) = element v"
| "call (IdF v) = id_selector v"
| "call (ClassF v) = class_selector v"
| "call (AttrF v) = attr v"
| "call (PseudoClassF v) = pseudoClass v"
| "call (PseudoElementF v) = pseudoElement v"

fun rank :: "fragment \<Rightarrow> nat" where
  "rank (ElementF v) = 1"
| "rank (IdF v) = 2"
| "rank (ClassF v) = 3"
| "rank (AttrF v) = 4"
| "rank (PseudoClassF v) = 5"
| "rank (PseudoElementF v) = 6"

text \<open>
  The rendered form of a fragment as the specification words it: the element value
  with no prefix, \<open>#\<close>, \<open>.\<close>, brackets, \<open>:\<close> and \<open>::\<close> for the others.
\<close>

fun rendered :: "fragment \<Rightarrow> string" where
  "rendered (ElementF v) = v"
| "rendered (IdF v) = ''#'' @ v"
| "rendered (ClassF v) = ''.'' @ v"
| "rendered (AttrF v) = ''['' @ v @ '']''"
| "rendered (PseudoClassF v) = '':'' @ v"
| "rendered (PseudoElementF v) = ''::'' @ v"

text \<open>The text a successful fragment call leaves in the builder.\<close>

fun text_after :: "fragment \<Rightarrow> string \<Rightarrow> string" where
  "text_after (ElementF v) t = v"
| "text_after f t = t @ rendered f"

text \<open>A chain \<^verbatim>\<open>b.m1(v1).m2(v2)...\<close>: the first exception ends it.\<close>

fun chain :: "fragment list \<Rightarrow> (Selector, unit) effect" where
  "chain [] = done_m"
| "chain (f # fs) = next_m (call f) (chain fs)"


text \<open>
  One instance under a caller that catches what a call throws and keeps using the
  instance: a fragment call, or \<^verbatim>\<open>this.combine(a, c, b)\<close> on the instance itself.
  \<open>run\<close> is the instance after the calls, \<open>appended\<close> the fragment calls that
  returned normally, in call order.
\<close>

datatype action = Append fragment | Combine Selector string Selector

fun perform :: "action \<Rightarrow> (Selector, unit) effect" where
  "perform (Append f) = call f"
| "perform (Combine selector1 combinator selector2) = combine selector1 combinator selector2"

fun run :: "action list \<Rightarrow> Selector \<Rightarrow> Selector" where
  "run [] this = this"
| "run (a # as) this = run as (snd (perform a this))"

fun appended :: "action list \<Rightarrow> Selector \<Rightarrow> fragment list" where
  "appended [] this = []"
| "appended (Append f # as) this =
    (case call f this of
       (Inl e, this') \<Rightarrow> appended as this'
     | (Inr u, this') \<Rightarrow> f # appended as this')"
| "appended (Combine selector1 combinator selector2 # as) this =
    appended as (snd (combine selector1 combinator selector2 this))"

text \<open>\<^verbatim>\<open>cssSelectorBuilder.combine(cssSelectorBuilder.element('a'), '+', cssSelectorBuilder.element('b'))\<close>\<close>

definition combined_a_b :: Selector where
  "combined_a_b =
    snd (cssSelectorBuilder_combine
          (snd (cssSelectorBuilder_element ''a'')) ''+'' (snd (cssSelectorBuilder_element ''b'')))"


section \<open>The rectangle\<close>

text \<open>
  \<^verbatim>\<open>function Rectangle(width, height)\<close> stores its two arguments; \<open>getArea\<close> multiplies
  the two fields. The type of numbers is left open: \<open>*\<close> is the multiplication of
  whatever the fields hold.
\<close>

record 'n rectangle =
  width :: 'n
  height :: 'n

definition Rectangle :: "'n \<Rightarrow> 'n \<Rightarrow> 'n rectangle" where
  "Rectangle w h = \<lparr> width = w, height = h \<rparr>"

definition getArea :: "('n::times) rectangle \<Rightarrow> 'n" where
  "getArea this = width this * height this"


section \<open>Serializing and deserializing\<close>

text \<open>
  Values as \<^verbatim>\<open>JSON.parse\<close> builds them, and \<open>JUndefined\<close> for a missing argument. An
  object is the list of its properties in enumeration order, which is the order
  \<^verbatim>\<open>Object.values\<close> follows.
\<close>

datatype jsval =
    JUndefined
  | JNull
  | JBool bool
  | JNum int
  | JStr string
  | JArr "jsval list"
  | JObj "(string \<times> jsval) list"

text \<open>
  \<^verbatim>\<open>Object.values\<close>: the property values of an object, the elements of an array, the
  one-character strings of a string, nothing for a number or a boolean, and a
  \<^verbatim>\<open>TypeError\<close> for \<^verbatim>\<open>null\<close> and \<^verbatim>\<open>undefined\<close>.
\<close>

fun Object_values :: "jsval \<Rightarrow> error + jsval list" where
  "Object_values (JObj props) = Inr (map snd props)"
| "Object_values (JArr xs) = Inr xs"
| "Object_values (JStr s) = Inr (map (\<lambda>c. JStr [c]) s)"
| "Object_values (JNum n) = Inr []"
| "Object_values (JBool b) = Inr []"
| "Object_values JNull = Inl TypeError"
| "Object_values JUndefined = Inl TypeError"

text \<open>
  The host's \<^verbatim>\<open>JSON.stringify\<close> and \<^verbatim>\<open>JSON.parse\<close> are parameters of the two
  functions; \<open>constructor_of\<close> is \<^verbatim>\<open>proto.constructor\<close>, called with \<^verbatim>\<open>new\<close> on the
  spread argument list.
\<close>

record 'obj proto =
  constructor_of :: "jsval list \<Rightarrow> error + 'obj"

definition getJSON :: "(jsval \<Rightarrow> string) \<Rightarrow> jsval \<Rightarrow> string" where
  "getJSON JSON_stringify obj = JSON_stringify obj"

definition fromJSON ::
    "(string \<Rightarrow> error + jsval) \<Rightarrow> 'obj proto \<Rightarrow> string \<Rightarrow> error + 'obj" where
  "fromJSON JSON_parse proto json =
    (case JSON_parse json of
       Inl e \<Rightarrow> Inl e
     | Inr parsed \<Rightarrow>
        (case Object_values parsed of
           Inl e \<Rightarrow> Inl e
         | Inr args \<Rightarrow> constructor_of proto args))"

text \<open>
  A shape whose constructor takes (height, width) in that order,
  \<^verbatim>\<open>function Shape(height, width) { this.height = height; this.width = width; }\<close>.
  A parameter with no argument is \<^verbatim>\<open>undefined\<close>.
\<close>

record shape =
  shape_height :: jsval
  shape_width :: jsval

definition argument :: "jsval list \<Rightarrow> nat \<Rightarrow> jsval" where
  "argument args i = (if i < length args then args ! i else JUndefined)"

definition Shape_prototype :: "shape proto" where
  "Shape_prototype =
    \<lparr> constructor_of =
        (\<lambda>args. Inr \<lparr> shape_height = argument args 0, shape_width = argument args 1 \<rparr>) \<rparr>"

text \<open>The object \<^verbatim>\<open>{height: 10, width: 20}\<close>.\<close>

definition height10_width20 :: jsval where
  "height10_width20 = JObj [(''height'', JNum 10), (''width'', JNum 20)]"

text \<open>
  Reading a property, \<^verbatim>\<open>obj.k\<close>: \<^verbatim>\<open>undefined\<close> when the object has none of that name.
\<close>

definition get_property :: "jsval \<Rightarrow> string \<Rightarrow> jsval" where
  "get_property obj k =
    (case obj of
       JObj props \<Rightarrow> (case map_of props k of Some v \<Rightarrow> v | None \<Rightarrow> JUndefined)
     | other \<Rightarrow> JUndefined)"

subsection \<open>A serializer and a parser for objects of integers\<close>

text \<open>
  An instance of the two host functions on objects whose members are integers, with
  keys free of quotes and escapes: enough to run the round trip on a concrete text.
\<close>

fun decimal :: "nat \<Rightarrow> string" where
  "decimal n =
    (if n < 10 then [char_of (48 + n)]
     else decimal (n div 10) @ [char_of (48 + n mod 10)])"

fun number_text :: "int \<Rightarrow> string" where
  "number_text i = (if i < 0 then ''-'' @ decimal (nat (- i)) else decimal (nat i))"

fun member_text :: "string \<times> jsval \<Rightarrow> string" where
  "member_text (k, JNum i) = [CHR 0x22] @ k @ [CHR 0x22] @ '':'' @ number_text i"
| "member_text (k, v) = [CHR 0x22] @ k @ [CHR 0x22] @ '':null''"

fun members_text :: "(string \<times> jsval) list \<Rightarrow> string" where
  "members_text [] = []"
| "members_text [m] = member_text m"
| "members_text (m # ms) = member_text m @ '','' @ members_text ms"

fun flat_stringify :: "jsval \<Rightarrow> string" where
  "flat_stringify (JObj props) = ''{'' @ members_text props @ ''}''"
| "flat_stringify (JNum i) = number_text i"
| "flat_stringify v = ''null''"

datatype scanning =
    AtOpen
  | AtKey
  | InKey string
  | AtColon string
  | AtNumber string
  | AtDigits string
  | InNumber string bool nat
  | AtEnd
  | Failed

definition is_digit :: "char \<Rightarrow> bool" where
  "is_digit c = (48 \<le> (of_char c :: nat) \<and> (of_char c :: nat) \<le> 57)"

definition digit_value :: "char \<Rightarrow> nat" where
  "digit_value c = of_char c - 48"

definition signed :: "bool \<Rightarrow> nat \<Rightarrow> jsval" where
  "signed negative n = JNum (if negative then - int n else int n)"

fun scan :: "(string \<times> jsval) list \<times> scanning \<Rightarrow> char \<Rightarrow> (string \<times> jsval) list \<times> scanning" where
  "scan (ms, AtOpen) c = (if c = CHR ''{'' then (ms, AtKey) else (ms, Failed))"
| "scan (ms, AtKey) c = (if c = CHR 0x22 then (ms, InKey []) else (ms, Failed))"
| "scan (ms, InKey k) c = (if c = CHR 0x22 then (ms, AtColon k) else (ms, InKey (k @ [c])))"
| "scan (ms, AtColon k) c = (if c = CHR '':'' then (ms, AtNumber k) else (ms, Failed))"
| "scan (ms, AtNumber k) c =
    (if c = CHR ''-'' then (ms, AtDigits k)
     else if is_digit c then (ms, InNumber k False (digit_value c))
     else (ms, Failed))"
| "scan (ms, AtDigits k) c =
    (if is_digit c then (ms, InNumber k True (digit_value c)) else (ms, Failed))"
| "scan (ms, InNumber k negative n) c =
    (if is_digit c then (ms, InNumber k negative (10 * n + digit_value c))
     else if c = CHR '','' then (ms @ [(k, signed negative n)], AtKey)
     else if c = CHR ''}'' then (ms @ [(k, signed negative n)], AtEnd)
     else (ms, Failed))"
| "scan (ms, AtEnd) c = (ms, Failed)"
| "scan (ms, Failed) c = (ms, Failed)"

definition flat_parse :: "string \<Rightarrow> error + jsval" where
  "flat_parse json =
    (case foldl scan ([], AtOpen) json of
       (ms, AtEnd) \<Rightarrow> Inr (JObj ms)
     | (ms, other) \<Rightarrow> Inl SyntaxError)"


section \<open>The ordering check\<close>

lemma checkSelectorsQueue_eq:
  "checkSelectorsQueue n this =
    (if currentSelectorInQueue this > n
     then (Inl (Error (errorMessageForSequence this)), this)
     else if currentSelectorInQueue this = n \<and> (n = 1 \<or> n = 2 \<or> n = 6)
     then (Inl (Error (errorMessageForRepeat this)), this)
     else (Inr (), this))"
  by (simp add: checkSelectorsQueue_def next_m_def throw_def done_m_def)

lemma after_check:
  "next_m (checkSelectorsQueue n) (next_m (assign g) (assign h)) this =
    (if currentSelectorInQueue this > n
     then (Inl (Error (errorMessageForSequence this)), this)
     else if currentSelectorInQueue this = n \<and> (n = 1 \<or> n = 2 \<or> n = 6)
     then (Inl (Error (errorMessageForRepeat this)), this)
     else (Inr (), h (g this)))"
  by (simp add: next_m_def assign_def checkSelectorsQueue_eq)

lemma call_eq:
  "call f this =
    (if currentSelectorInQueue this > rank f
     then (Inl (Error (errorMessageForSequence this)), this)
     else if currentSelectorInQueue this = rank f \<and> rank f \<in> {1, 2, 6}
     then (Inl (Error (errorMessageForRepeat this)), this)
     else (Inr (), this\<lparr>currentSelectorInQueue := rank f,
                        resultSelector := text_after f (resultSelector this)\<rparr>))"
  by (cases f)
     (simp_all add: element_def id_selector_def class_selector_def attr_def
        pseudoClass_def pseudoElement_def after_check)

lemma combined_a_b_eq:
  "combined_a_b = new_Selector\<lparr>resultSelector := ''a + b''\<rparr>"
  by (simp add: combined_a_b_def cssSelectorBuilder_combine_def cssSelectorBuilder_element_def
      combine_def assign_def stringify_def element_def after_check new_Selector_def)

lemma chain_general:
  "sorted (map rank fs) \<Longrightarrow>
   (\<forall>f\<in>set fs. currentSelectorInQueue s \<le> rank f
        \<and> (rank f \<in> {1, 2, 6} \<longrightarrow> currentSelectorInQueue s < rank f)) \<Longrightarrow>
   (\<forall>r\<in>{1, 2, 6}. length (filter (\<lambda>f. rank f = r) fs) \<le> 1) \<Longrightarrow>
   ((\<exists>f\<in>set fs. rank f = 1) \<longrightarrow> resultSelector s = []) \<Longrightarrow>
   fst (chain fs s) = Inr ()
   \<and> resultSelector (snd (chain fs s)) = resultSelector s @ concat (map rendered fs)"
proof (induction fs arbitrary: s)
  case Nil
  then show ?case by (simp add: done_m_def)
next
  case (Cons f fs)
  let ?s' = "s\<lparr>currentSelectorInQueue := rank f,
               resultSelector := text_after f (resultSelector s)\<rparr>"
  from Cons.prems(2) have ok: "call f s = (Inr (), ?s')"
    by (auto simp add: call_eq)
  have app: "text_after f (resultSelector s) = resultSelector s @ rendered f"
    using Cons.prems(4) by (cases f) auto
  have a: "sorted (map rank fs)" using Cons.prems(1) by simp
  have b: "\<forall>g\<in>set fs. currentSelectorInQueue ?s' \<le> rank g
        \<and> (rank g \<in> {1, 2, 6} \<longrightarrow> currentSelectorInQueue ?s' < rank g)"
  proof
    fix g assume g: "g \<in> set fs"
    then have le: "rank f \<le> rank g" using Cons.prems(1) by simp
    have "rank g \<in> {1, 2, 6} \<Longrightarrow> rank f \<noteq> rank g"
    proof
      assume r: "rank g \<in> {1, 2, 6}" and e: "rank f = rank g"
      from g have "filter (\<lambda>h. rank h = rank g) fs \<noteq> []"
        by (auto simp add: filter_empty_conv)
      then have "length (filter (\<lambda>h. rank h = rank g) fs) \<ge> 1"
        by (cases "filter (\<lambda>h. rank h = rank g) fs") auto
      then have "length (filter (\<lambda>h. rank h = rank g) (f # fs)) \<ge> 2" using e by simp
      moreover have "length (filter (\<lambda>h. rank h = rank g) (f # fs)) \<le> 1"
        using Cons.prems(3) r by blast
      ultimately show False by simp
    qed
    with le show "currentSelectorInQueue ?s' \<le> rank g
        \<and> (rank g \<in> {1, 2, 6} \<longrightarrow> currentSelectorInQueue ?s' < rank g)"
      by auto
  qed
  have c: "\<forall>r\<in>{1, 2, 6}. length (filter (\<lambda>f. rank f = r) fs) \<le> 1"
    using Cons.prems(3) by (auto split: if_splits)
  have d: "(\<exists>g\<in>set fs. rank g = 1) \<longrightarrow> resultSelector ?s' = []"
  proof
    assume "\<exists>g\<in>set fs. rank g = 1"
    then obtain g where g: "g \<in> set fs" "rank g = 1" by blast
    with b have "rank f < 1" by auto
    moreover have "rank f \<ge> 1" by (cases f) auto
    ultimately show "resultSelector ?s' = []" by simp
  qed
  from Cons.IH[OF a b c d] ok app show ?case
    by (simp add: next_m_def)
qed

subsection \<open>Traces of one instance\<close>

lemma new_Selector_fields [simp]:
  "resultSelector new_Selector = []"
  "currentSelectorInQueue new_Selector = 0"
  by (simp_all add: new_Selector_def)

lemma messages_differ:
  "errorMessageForRepeat new_Selector \<noteq> errorMessageForSequence new_Selector"
  by (simp add: new_Selector_def)

lemma combine_eq:
  "combine a c b this =
    (Inr (), this\<lparr>resultSelector := stringify a @ '' '' @ c @ '' '' @ stringify b\<rparr>)"
  by (simp add: combine_def assign_def)

lemma appended_Append:
  "appended (Append f # as) s =
    (if currentSelectorInQueue s > rank f \<or> (currentSelectorInQueue s = rank f \<and> rank f \<in> {1, 2, 6})
     then appended as s
     else f # appended as (s\<lparr>currentSelectorInQueue := rank f,
                        resultSelector := text_after f (resultSelector s)\<rparr>))"
  by (auto simp add: call_eq simp del: call.simps)

lemma appended_Combine:
  "appended (Combine a c b # as) s =
     appended as (s\<lparr>resultSelector := stringify a @ '' '' @ c @ '' '' @ stringify b\<rparr>)"
  by (simp add: combine_eq)

lemma run_Append:
  "run (Append f # as) s =
    (if currentSelectorInQueue s > rank f \<or> (currentSelectorInQueue s = rank f \<and> rank f \<in> {1, 2, 6})
     then run as s
     else run as (s\<lparr>currentSelectorInQueue := rank f,
                        resultSelector := text_after f (resultSelector s)\<rparr>))"
  by (auto simp add: call_eq simp del: call.simps)

lemma run_Combine:
  "run (Combine a c b # as) s =
     run as (s\<lparr>resultSelector := stringify a @ '' '' @ c @ '' '' @ stringify b\<rparr>)"
  by (simp add: combine_eq)

declare appended.simps(2,3) [simp del]
declare run.simps(2) [simp del]

lemma appended_bound:
  "f \<in> set (appended as s) \<Longrightarrow>
    currentSelectorInQueue s \<le> rank f
    \<and> (rank f \<in> {1, 2, 6} \<longrightarrow> currentSelectorInQueue s < rank f)"
proof (induction as arbitrary: s)
  case Nil
  then show ?case by simp
next
  case (Cons a as)
  show ?case
  proof (cases a)
    case (Append g)
    with Cons.prems have
      "f \<in> set (if currentSelectorInQueue s > rank g
                    \<or> (currentSelectorInQueue s = rank g \<and> rank g \<in> {1, 2, 6})
          then appended as s
          else g # appended as (s\<lparr>currentSelectorInQueue := rank g,
                        resultSelector := text_after g (resultSelector s)\<rparr>))"
      by (simp only: appended_Append)
    then show ?thesis
      using Cons.IH[of s]
        Cons.IH[of "s\<lparr>currentSelectorInQueue := rank g,
                        resultSelector := text_after g (resultSelector s)\<rparr>"]
      by (auto split: if_splits)
  next
    case (Combine a c b)
    with Cons.prems Cons.IH[of "s\<lparr>resultSelector := stringify a @ '' '' @ c @ '' '' @ stringify b\<rparr>"]
    show ?thesis by (simp add: appended_Combine)
  qed
qed

lemma appended_sorted: "sorted (map rank (appended as s))"
proof (induction as arbitrary: s)
  case Nil
  show ?case by simp
next
  case (Cons a as)
  show ?case
  proof (cases a)
    case (Append g)
    have "\<forall>f\<in>set (appended as (s\<lparr>currentSelectorInQueue := rank g,
                        resultSelector := text_after g (resultSelector s)\<rparr>)). rank g \<le> rank f"
      using appended_bound by fastforce
    with Append Cons.IH show ?thesis by (simp add: appended_Append)
  next
    case (Combine a c b)
    with Cons.IH show ?thesis by (simp add: appended_Combine)
  qed
qed

lemma appended_once:
  "r \<in> {1, 2, 6} \<Longrightarrow> length (filter (\<lambda>f. rank f = r) (appended as s)) \<le> 1"
proof (induction as arbitrary: s)
  case Nil
  show ?case by simp
next
  case (Cons a as)
  show ?case
  proof (cases a)
    case (Append g)
    let ?s' = "s\<lparr>currentSelectorInQueue := rank g,
                        resultSelector := text_after g (resultSelector s)\<rparr>"
    have "rank g = r \<Longrightarrow> filter (\<lambda>f. rank f = r) (appended as ?s') = []"
      using appended_bound[of _ as ?s'] Cons.prems by (fastforce simp add: filter_empty_conv)
    with Append Cons.IH[OF Cons.prems] show ?thesis by (simp add: appended_Append)
  next
    case (Combine a c b)
    with Cons.IH[OF Cons.prems] show ?thesis by (simp add: appended_Combine)
  qed
qed

lemma appended_repeatable:
  "\<forall>f\<in>set fs. rank f \<in> {3, 4, 5} \<Longrightarrow> sorted (map rank fs) \<Longrightarrow>
   \<forall>f\<in>set fs. currentSelectorInQueue s \<le> rank f \<Longrightarrow>
   appended (map Append fs) s = fs"
proof (induction fs arbitrary: s)
  case Nil
  show ?case by simp
next
  case (Cons f fs)
  have "appended (map Append fs) (s\<lparr>currentSelectorInQueue := rank f,
                        resultSelector := text_after f (resultSelector s)\<rparr>) = fs"
    using Cons.prems by (intro Cons.IH) auto
  with Cons.prems show ?case by (auto simp add: appended_Append)
qed

lemma run_messages:
  "errorMessageForRepeat (run as s) = errorMessageForRepeat s
   \<and> errorMessageForSequence (run as s) = errorMessageForSequence s"
proof (induction as arbitrary: s)
  case Nil
  show ?case by simp
next
  case (Cons a as)
  show ?case by (cases a) (simp_all add: run_Append run_Combine Cons.IH)
qed

lemma run_rank:
  "currentSelectorInQueue (run as s) =
    (if appended as s = [] then currentSelectorInQueue s else rank (last (appended as s)))"
proof (induction as arbitrary: s)
  case Nil
  show ?case by simp
next
  case (Cons a as)
  show ?case
    by (cases a)
       (auto simp add: run_Append run_Combine appended_Append appended_Combine Cons.IH)
qed

lemma repeated_after_run:
  assumes "currentSelectorInQueue s = rank g" and "rank g \<in> {1, 2, 6}"
  shows "fst (call g (run as s)) =
    Inl (Error (if appended as s = [] then errorMessageForRepeat s
                else errorMessageForSequence s))"
proof (cases "appended as s = []")
  case True
  then have "currentSelectorInQueue (run as s) = rank g"
    using assms(1) by (simp add: run_rank)
  then show ?thesis
    using True assms(2) by (simp add: call_eq run_messages del: call.simps)
next
  case False
  then have "last (appended as s) \<in> set (appended as s)" by simp
  from appended_bound[OF this] assms
  have "rank g < rank (last (appended as s))"
    by (cases "rank (last (appended as s)) = rank g") auto
  then have "rank g < currentSelectorInQueue (run as s)"
    using False by (simp add: run_rank)
  then show ?thesis
    using False by (simp add: call_eq run_messages del: call.simps)
qed

subsection \<open>The parser reads back what the serializer writes\<close>

declare decimal.simps [simp del]

lemma flat_back: "flat_parse (flat_stringify height10_width20) = Inr height10_width20"
  by code_simp


section \<open>Properties of the selector builder\<close>

text \<open>
  C1 (as the code has it). A fragment call of rank \<open>r\<close> on a builder whose last rank is
  above \<open>r\<close> throws the sequence error; on one whose last rank is \<open>r\<close>, for \<open>r\<close> one
  of 1, 2, 6, it throws the repeat error; every other call returns normally and stores
  \<open>r\<close> as the last rank. The text then is the old text followed by the rendered
  fragment for id, class, attr, pseudoClass and pseudoElement, and the bare value,
  replacing the old text, for element.
\<close>

theorem fragment_call_outcome:
  "call f this =
    (if currentSelectorInQueue this > rank f
     then (Inl (Error (errorMessageForSequence this)), this)
     else if currentSelectorInQueue this = rank f \<and> rank f \<in> {1, 2, 6}
     then (Inl (Error (errorMessageForRepeat this)), this)
     else (Inr (), this\<lparr>currentSelectorInQueue := rank f,
                        resultSelector :=
                          (case f of ElementF v \<Rightarrow> v
                           | other \<Rightarrow> resultSelector this @ rendered f)\<rparr>))"
  by (cases f) (simp_all add: call_eq del: call.simps)

text \<open>
  On the builder that the facade's combine returns for \<open>a\<close>, \<open>+\<close>, \<open>b\<close> the last rank is
  still 0 and the text is \<open>a + b\<close>: an element call is accepted and leaves \<open>p\<close>, not
  \<open>a + bp\<close>.
\<close>

theorem fragment_call_appends_counterexample:
  "\<not> currentSelectorInQueue combined_a_b > rank (ElementF ''p'')
   \<and> currentSelectorInQueue combined_a_b \<noteq> rank (ElementF ''p'')
   \<and> fst (call (ElementF ''p'') combined_a_b) = Inr ()
   \<and> resultSelector combined_a_b = ''a + b''
   \<and> resultSelector (snd (call (ElementF ''p'') combined_a_b)) = ''p''
   \<and> resultSelector (snd (call (ElementF ''p'') combined_a_b))
       \<noteq> resultSelector combined_a_b @ rendered (ElementF ''p'')"
  by (simp add: combined_a_b_eq call_eq new_Selector_def del: call.simps)

text \<open>
  C2. A chain of fragment calls on a new builder whose ranks never decrease and in which
  ranks 1, 2 and 6 each occur at most once: no call throws, and \<open>stringify\<close> returns
  the rendered fragments concatenated in call order, with nothing in between.
\<close>

theorem valid_chain_stringify:
  assumes "sorted (map rank fs)"
    and "length (filter (\<lambda>f. rank f = 1) fs) \<le> 1"
    and "length (filter (\<lambda>f. rank f = 2) fs) \<le> 1"
    and "length (filter (\<lambda>f. rank f = 6) fs) \<le> 1"
  shows "fst (chain fs new_Selector) = Inr ()
    \<and> stringify (snd (chain fs new_Selector)) = concat (map rendered fs)"
proof -
  have "\<forall>f\<in>set fs. currentSelectorInQueue new_Selector \<le> rank f
        \<and> (rank f \<in> {1, 2, 6} \<longrightarrow> currentSelectorInQueue new_Selector < rank f)"
    by auto
  moreover have "\<forall>r\<in>{1, 2, 6}. length (filter (\<lambda>f. rank f = r) fs) \<le> 1"
    using assms(2-4) by simp
  moreover have "(\<exists>f\<in>set fs. rank f = 1) \<longrightarrow> resultSelector new_Selector = []"
    by simp
  ultimately show ?thesis
    using chain_general[OF assms(1), of new_Selector] by (simp add: stringify_def)
qed

theorem valid_chain_stringify_witness:
  "sorted (map rank [ElementF ''a'', IdF ''m'', ClassF ''c'', ClassF ''d'', AttrF ''x'',
                     PseudoClassF ''h'', PseudoElementF ''b''])
   \<and> fst (chain [ElementF ''a'', IdF ''m'', ClassF ''c'', ClassF ''d'', AttrF ''x'',
                     PseudoClassF ''h'', PseudoElementF ''b''] new_Selector) = Inr ()
   \<and> stringify (snd (chain [ElementF ''a'', IdF ''m'', ClassF ''c'', ClassF ''d'', AttrF ''x'',
                     PseudoClassF ''h'', PseudoElementF ''b''] new_Selector))
       = ''a#m.c.d[x]:h::b''"
  using valid_chain_stringify [of "[ElementF ''a'', IdF ''m'', ClassF ''c'', ClassF ''d'',
                     AttrF ''x'', PseudoClassF ''h'', PseudoElementF ''b'']"]
  by simp

text \<open>
  C3. \<open>combine\<close>, through the facade or on an instance, never throws, and the result
  stringifies to the first selector's text, a space, the combinator as given, a space
  and the second selector's text.
\<close>

theorem combine_stringify:
  "fst (cssSelectorBuilder_combine A c B) = Inr ()
   \<and> stringify (snd (cssSelectorBuilder_combine A c B)) = stringify A @ '' '' @ c @ '' '' @ stringify B
   \<and> fst (combine A c B this) = Inr ()
   \<and> stringify (snd (combine A c B this)) = stringify A @ '' '' @ c @ '' '' @ stringify B"
  by (simp add: cssSelectorBuilder_combine_def combine_eq stringify_def)

text \<open>
  C4. On one instance, whatever calls are made and whichever of them throw: the ranks
  of the fragments successfully appended never decrease, element, id and pseudo-element
  are each appended at most once, and any number of class calls, of attr calls or of
  pseudo-class calls in a row are all appended.
\<close>

theorem order_and_uniqueness:
  "sorted (map rank (appended as new_Selector))
   \<and> length (filter (\<lambda>f. rank f = 1) (appended as new_Selector)) \<le> 1
   \<and> length (filter (\<lambda>f. rank f = 2) (appended as new_Selector)) \<le> 1
   \<and> length (filter (\<lambda>f. rank f = 6) (appended as new_Selector)) \<le> 1
   \<and> appended (map Append (map ClassF vs)) new_Selector = map ClassF vs
   \<and> appended (map Append (map AttrF vs)) new_Selector = map AttrF vs
   \<and> appended (map Append (map PseudoClassF vs)) new_Selector = map PseudoClassF vs"
proof -
  have "appended (map Append (map ClassF vs)) new_Selector = map ClassF vs"
    by (rule appended_repeatable) (auto simp add: sorted_map)
  moreover have "appended (map Append (map AttrF vs)) new_Selector = map AttrF vs"
    by (rule appended_repeatable) (auto simp add: sorted_map)
  moreover have "appended (map Append (map PseudoClassF vs)) new_Selector = map PseudoClassF vs"
    by (rule appended_repeatable) (auto simp add: sorted_map)
  ultimately show ?thesis
    using appended_sorted[of as new_Selector] appended_once[of 1 as new_Selector]
      appended_once[of 2 as new_Selector] appended_once[of 6 as new_Selector]
    by simp
qed

text \<open>
  C5 (as the code has it). After a successful element, id or pseudo-element call, a
  second call of the same category always throws, whatever was called in between: the
  repeat error when no fragment call succeeded in between, the sequence error when one
  did (it then has a higher rank).
\<close>

theorem second_append_error:
  assumes "rank f \<in> {1, 2, 6}"
    and "fst (call f this) = Inr ()"
    and "rank g = rank f"
  shows "fst (call g (run as (snd (call f this)))) =
    Inl (Error (if appended as (snd (call f this)) = []
                then errorMessageForRepeat this
                else errorMessageForSequence this))"
proof -
  have "snd (call f this) = this\<lparr>currentSelectorInQueue := rank f,
                  resultSelector := text_after f (resultSelector this)\<rparr>"
    using assms(2) by (auto simp add: call_eq simp del: call.simps split: if_splits)
  then have "currentSelectorInQueue (snd (call f this)) = rank g"
    and "errorMessageForRepeat (snd (call f this)) = errorMessageForRepeat this"
    and "errorMessageForSequence (snd (call f this)) = errorMessageForSequence this"
    using assms(3) by simp_all
  then show ?thesis
    using repeated_after_run[of "snd (call f this)" g as] assms(1,3) by simp
qed

theorem second_append_error_witness:
  "rank (IdF ''x'') \<in> {1, 2, 6}
   \<and> fst (call (IdF ''x'') new_Selector) = Inr ()
   \<and> rank (IdF ''y'') = rank (IdF ''x'')
   \<and> fst (call (IdF ''y'') (run [] (snd (call (IdF ''x'') new_Selector))))
        = Inl (Error (errorMessageForRepeat new_Selector))
   \<and> fst (call (IdF ''y'')
        (run [Append (ClassF ''c'')] (snd (call (IdF ''x'') new_Selector))))
        = Inl (Error (errorMessageForSequence new_Selector))"
proof -
  have a: "rank (IdF ''x'') \<in> {1, 2, 6}" by simp
  have b: "fst (call (IdF ''x'') new_Selector) = Inr ()"
    by (simp add: call_eq del: call.simps)
  have c: "rank (IdF ''y'') = rank (IdF ''x'')" by simp
  have d: "appended [Append (ClassF ''c'')] (snd (call (IdF ''x'') new_Selector)) \<noteq> []"
    by (simp add: call_eq appended_Append del: call.simps)
  show ?thesis
    using a b c d second_append_error [OF a b c, of "[]"]
      second_append_error [OF a b c, of "[Append (ClassF ''c'')]"]
    by simp
qed

text \<open>
  With an id call between two element calls, the second element call throws the
  sequence error, which is not the repeat error.
\<close>

theorem second_append_error_counterexample:
  "fst (chain [ElementF ''a'', IdF ''b''] new_Selector) = Inr ()
   \<and> fst (call (ElementF ''c'') (snd (chain [ElementF ''a'', IdF ''b''] new_Selector)))
        = Inl (Error (errorMessageForSequence new_Selector))
   \<and> fst (call (ElementF ''c'') (snd (chain [ElementF ''a'', IdF ''b''] new_Selector)))
        \<noteq> Inl (Error (errorMessageForRepeat new_Selector))"
  using messages_differ
  by (simp add: call_eq next_m_def done_m_def del: call.simps)

text \<open>
  C6 (as the code has it). \<open>combine\<close> leaves the last rank of its receiver alone, so the
  builder the facade's combine returns has last rank 0: every fragment call on it
  returns normally, stores its rank, and extends the combined text with the rendered
  fragment (an element call replaces the text with its value).
\<close>

theorem combined_builder_accepts:
  "call f (snd (cssSelectorBuilder_combine A c B)) =
    (Inr (), new_Selector\<lparr>currentSelectorInQueue := rank f,
        resultSelector :=
          (case f of ElementF v \<Rightarrow> v
           | other \<Rightarrow> stringify A @ '' '' @ c @ '' '' @ stringify B @ rendered f)\<rparr>)
   \<and> currentSelectorInQueue (snd (combine A c B this)) = currentSelectorInQueue this"
  by (cases f)
     (simp_all add: cssSelectorBuilder_combine_def combine_eq call_eq del: call.simps)

text \<open>
  An id call on the combined builder for \<open>a\<close>, \<open>+\<close>, \<open>b\<close> returns normally and the
  text becomes \<open>a + b#x\<close>.
\<close>

theorem combined_builder_terminal_counterexample:
  "stringify combined_a_b = ''a + b''
   \<and> fst (call (IdF ''x'') combined_a_b) = Inr ()
   \<and> stringify (snd (call (IdF ''x'') combined_a_b)) = ''a + b#x''"
  by (simp add: combined_a_b_eq call_eq stringify_def del: call.simps)

text \<open>
  C7 (as the code has it). \<open>element\<close> throws the sequence error on a last rank above 1
  and the repeat error on last rank 1; on last rank 0 it sets the last rank to 1 and the
  text to exactly its value, with no prefix, whatever the text was before.
\<close>

theorem element_outcome:
  "element v this =
    (if currentSelectorInQueue this > 1
     then (Inl (Error (errorMessageForSequence this)), this)
     else if currentSelectorInQueue this = 1
     then (Inl (Error (errorMessageForRepeat this)), this)
     else (Inr (), this\<lparr>currentSelectorInQueue := 1, resultSelector := v\<rparr>))"
  by (simp add: element_def after_check)

text \<open>
  On a combined builder holding \<open>table > tr\<close>, \<open>element\<close> is accepted and leaves
  \<open>td\<close>: the value is not concatenated after the existing text.
\<close>

theorem element_concatenates_counterexample:
  "fst (cssSelectorBuilder_combine (snd (cssSelectorBuilder_element ''table'')) ''>''
          (snd (cssSelectorBuilder_element ''tr''))) = Inr ()
   \<and> resultSelector (snd (cssSelectorBuilder_combine (snd (cssSelectorBuilder_element ''table''))
          ''>'' (snd (cssSelectorBuilder_element ''tr'')))) = ''table > tr''
   \<and> fst (element ''td'' (snd (cssSelectorBuilder_combine
          (snd (cssSelectorBuilder_element ''table'')) ''>''
          (snd (cssSelectorBuilder_element ''tr''))))) = Inr ()
   \<and> resultSelector (snd (element ''td'' (snd (cssSelectorBuilder_combine
          (snd (cssSelectorBuilder_element ''table'')) ''>''
          (snd (cssSelectorBuilder_element ''tr'')))))) = ''td''
   \<and> resultSelector (snd (element ''td'' (snd (cssSelectorBuilder_combine
          (snd (cssSelectorBuilder_element ''table'')) ''>''
          (snd (cssSelectorBuilder_element ''tr'')))))) \<noteq> ''table > tr'' @ ''td''"
  by (simp add: cssSelectorBuilder_combine_def cssSelectorBuilder_element_def combine_eq
      stringify_def element_def after_check)

text \<open>
  C8. When a fragment call throws, the builder's fields are what they were before the
  call: the check runs before any assignment.
\<close>

theorem failed_call_keeps_state:
  "fst (call f this) = Inl e \<Longrightarrow> snd (call f this) = this"
  by (auto simp add: call_eq simp del: call.simps split: if_splits)

theorem failed_call_keeps_state_witness:
  "fst (call (IdF ''y'') (snd (cssSelectorBuilder_id ''x'')))
      = Inl (Error (errorMessageForRepeat new_Selector))
   \<and> snd (call (IdF ''y'') (snd (cssSelectorBuilder_id ''x''))) = snd (cssSelectorBuilder_id ''x'')
   \<and> resultSelector (snd (call (IdF ''y'') (snd (cssSelectorBuilder_id ''x'')))) = ''#x''
   \<and> currentSelectorInQueue (snd (call (IdF ''y'') (snd (cssSelectorBuilder_id ''x'')))) = 2"
proof -
  have a: "fst (call (IdF ''y'') (snd (cssSelectorBuilder_id ''x'')))
      = Inl (Error (errorMessageForRepeat new_Selector))"
    by (simp add: cssSelectorBuilder_id_def id_selector_def after_check)
  have b: "snd (cssSelectorBuilder_id ''x'') =
      new_Selector\<lparr>currentSelectorInQueue := 2, resultSelector := ''#x''\<rparr>"
    by (simp add: cssSelectorBuilder_id_def id_selector_def after_check)
  show ?thesis
    using a failed_call_keeps_state [OF a] by (simp add: b)
qed


section \<open>Properties of the rectangle and of the serializer pair\<close>

text \<open>
  C9. The object \<open>Rectangle w h\<close> has width \<open>w\<close>, height \<open>h\<close> and area \<open>w * h\<close>; for
  10 and 20 these are 10, 20 and 200.
\<close>

theorem rectangle_fields_and_area:
  "width (Rectangle w h) = w
   \<and> height (Rectangle w h) = h
   \<and> getArea (Rectangle w h) = w * h
   \<and> width (Rectangle (10 :: int) 20) = 10
   \<and> height (Rectangle (10 :: int) 20) = 20
   \<and> getArea (Rectangle (10 :: int) 20) = 200"
  by (simp add: Rectangle_def getArea_def)

text \<open>
  C10. When the host's parser reads back the object \<open>{height: 10, width: 20}\<close> from the
  text the host's serializer gives for it, \<open>fromJSON\<close> on the text \<open>getJSON\<close> returns
  for that object, with a shape whose constructor takes (height, width), returns an
  object with the height and the width of the original.
\<close>

theorem json_round_trip:
  assumes "JSON_parse (JSON_stringify height10_width20) = Inr height10_width20"
  shows "fromJSON JSON_parse Shape_prototype (getJSON JSON_stringify height10_width20) =
      Inr \<lparr> shape_height = get_property height10_width20 ''height'',
            shape_width = get_property height10_width20 ''width'' \<rparr>
    \<and> get_property height10_width20 ''height'' = JNum 10
    \<and> get_property height10_width20 ''width'' = JNum 20"
  using assms
  by (simp add: fromJSON_def getJSON_def Shape_prototype_def argument_def
      height10_width20_def get_property_def)

theorem json_round_trip_witness:
  "flat_parse (flat_stringify height10_width20) = Inr height10_width20
   \<and> fromJSON flat_parse Shape_prototype (getJSON flat_stringify height10_width20) =
      Inr \<lparr> shape_height = JNum 10, shape_width = JNum 20 \<rparr>"
  using json_round_trip [of flat_parse flat_stringify] flat_back by simp

end
